theory Spec2Isabelle
  imports Complex_Main "HOL-Library.Word"
begin

section \<open>JavaScript values used by CanvasLayer.js\<close>

text \<open>
  The pixel buffers handled by the layer are the \<open>data\<close> of a canvas \<open>ImageData\<close>, a
  \<open>Uint8ClampedArray\<close>: a fixed-length array of bytes. Reading past its end gives
  \<open>undefined\<close>, writing past its end does nothing, and a written number is clamped to
  \<open>0..255\<close> (\<open>NaN\<close> is stored as \<open>0\<close>).

  A JavaScript number that the codec computes is either an integer or \<open>NaN\<close>; it is
  modelled as \<open>int option\<close> with \<open>None\<close> for \<open>NaN\<close>. All integers met here are far
  below \<open>2^53\<close>, where double arithmetic on integers is exact.
\<close>

type_synonym byte = "8 word"

type_synonym number = "int option"

text \<open>\<open>pixel[k]\<close>: the element, or \<open>None\<close> for \<open>undefined\<close> when \<open>k\<close> is out of range.\<close>

definition array_get :: "byte list \<Rightarrow> nat \<Rightarrow> int option" where
  "array_get arr k = (if k < length arr then Some (uint (arr ! k)) else None)"

text \<open>\<open>data.slice(i, j)\<close> of a typed array, for \<open>0 \<le> i \<le> j\<close>.\<close>

definition array_slice :: "byte list \<Rightarrow> nat \<Rightarrow> nat \<Rightarrow> byte list" where
  "array_slice arr i j = take (j - i) (drop i arr)"

text \<open>The value a \<open>Uint8ClampedArray\<close> stores for a number written to it.\<close>

definition clamp_byte :: "number \<Rightarrow> byte" where
  "clamp_byte v =
     (case v of
        None \<Rightarrow> 0
      | Some n \<Rightarrow> if n < 0 then 0 else if 255 < n then 255 else word_of_int n)"

text \<open>\<open>data[k] = v\<close> on a \<open>Uint8ClampedArray\<close>: ignored when \<open>k\<close> is out of range.\<close>

definition store :: "byte list \<Rightarrow> nat \<Rightarrow> number \<Rightarrow> byte list" where
  "store arr k v = (if k < length arr then arr[k := clamp_byte v] else arr)"

subsection \<open>Numbers as strings\<close>

definition digit_char :: "nat \<Rightarrow> char" where
  "digit_char d = char_of (48 + d)"

text \<open>The decimal digits of a natural number, without leading zeros.\<close>

function decimal :: "nat \<Rightarrow> string" where
  "decimal n = (if n < 10 then [digit_char n] else decimal (n div 10) @ [digit_char (n mod 10)])"
  by pat_completeness auto
termination
  by (relation "measure id") auto

declare decimal.simps [simp del]

text \<open>\<open>String(v)\<close> for an integer, and for \<open>undefined\<close>.\<close>

definition string_of_int :: "int \<Rightarrow> string" where
  "string_of_int i = (if i < 0 then CHR ''-'' # decimal (nat (- i)) else decimal (nat i))"

definition to_string :: "int option \<Rightarrow> string" where
  "to_string v = (case v of None \<Rightarrow> ''undefined'' | Some i \<Rightarrow> string_of_int i)"

text \<open>
  \<open>str.slice(start)\<close> and \<open>str.slice(start, end)\<close>: a negative index counts from the end,
  and every index is brought into \<open>0..length\<close>.
\<close>

definition slice_index :: "string \<Rightarrow> int \<Rightarrow> nat" where
  "slice_index str k =
     (let len = int (length str)
      in nat (if k < 0 then max (len + k) 0 else min k len))"

definition slice_from :: "string \<Rightarrow> int \<Rightarrow> string" where
  "slice_from str start = drop (slice_index str start) str"

definition slice :: "string \<Rightarrow> int \<Rightarrow> int \<Rightarrow> string" where
  "slice str start stop =
     (let from = slice_index str start; to = slice_index str stop
      in take (to - from) (drop from str))"

subsection \<open>parseInt\<close>

text \<open>
  \<open>parseInt(string)\<close> with no radix: leading white space is skipped, a sign is read, a
  \<open>0x\<close> or \<open>0X\<close> prefix selects radix 16, and the longest prefix of digits of the radix is
  the value; without any digit the result is \<open>NaN\<close>.
\<close>

definition is_space :: "char \<Rightarrow> bool" where
  "is_space c = (of_char c \<in> {9, 10, 11, 12, 13, 32, 160 :: nat})"

definition digit_value :: "char \<Rightarrow> nat option" where
  "digit_value c =
     (let n = of_char c :: nat
      in if 48 \<le> n \<and> n \<le> 57 then Some (n - 48)
         else if 97 \<le> n \<and> n \<le> 122 then Some (n - 87)
         else if 65 \<le> n \<and> n \<le> 90 then Some (n - 55)
         else None)"

definition is_digit_of :: "nat \<Rightarrow> char \<Rightarrow> bool" where
  "is_digit_of radix c = (case digit_value c of None \<Rightarrow> False | Some d \<Rightarrow> d < radix)"

definition digits_value :: "nat \<Rightarrow> string \<Rightarrow> nat" where
  "digits_value radix z =
     foldl (\<lambda>acc c. acc * radix + (case digit_value c of None \<Rightarrow> 0 | Some d \<Rightarrow> d)) 0 z"

definition parse_digits :: "nat \<Rightarrow> string \<Rightarrow> nat option" where
  "parse_digits radix s =
     (let z = takeWhile (is_digit_of radix) s
      in if z = [] then None else Some (digits_value radix z))"

definition parseInt :: "string \<Rightarrow> number" where
  "parseInt input =
     (let s = dropWhile is_space input;
          negative = (s \<noteq> [] \<and> hd s = CHR ''-'');
          s1 = (if s \<noteq> [] \<and> (hd s = CHR ''+'' \<or> hd s = CHR ''-'') then tl s else s);
          hex = (take 2 s1 = ''0x'' \<or> take 2 s1 = ''0X'');
          magnitude = (if hex then parse_digits 16 (drop 2 s1) else parse_digits 10 s1)
      in map_option (\<lambda>m. if negative then - int m else int m) magnitude)"

section \<open>Pixel codec\<close>

text \<open>
  \<open>pad(number)\<close>: \<open>'00' + number\<close>, cut to its last three characters. The argument is
  \<open>pixel[2]\<close>: a byte value or \<open>undefined\<close>.
\<close>

definition pad :: "int option \<Rightarrow> string" where
  "pad number =
     (let str = ''00'' @ to_string number
      in slice_from str (int (length str) - 3))"

text \<open>
  The local variables of \<open>decodeDate\<close>. \<open>undefined * 255\<close> and every operation on
  \<open>NaN\<close> give \<open>NaN\<close>. \<open>parseInt(totalDays / 365)\<close> reads the integer part of the
  quotient's decimal notation; \<open>totalDays\<close> is an integer from \<open>0\<close> to \<open>65280\<close>, the
  quotient is below \<open>179\<close> and \<open>0\<close> or at least \<open>1/365\<close>, so its notation has no exponent
  and the integer part is \<open>totalDays div 365\<close>. \<open>%\<close> on non-negative integers is \<open>mod\<close>.
\<close>

definition totalDays :: "byte list \<Rightarrow> number" where
  "totalDays pixel =
     (case (array_get pixel 0, array_get pixel 1) of
        (Some r, Some g) \<Rightarrow> Some (r * 255 + g)
      | _ \<Rightarrow> None)"

definition yearAsInt :: "byte list \<Rightarrow> number" where
  "yearAsInt pixel = map_option (\<lambda>t. t div 365 + 15) (totalDays pixel)"

definition year :: "byte list \<Rightarrow> number" where
  "year pixel = map_option (\<lambda>y. y * 1000) (yearAsInt pixel)"

definition julianDay :: "byte list \<Rightarrow> number" where
  "julianDay pixel = map_option (\<lambda>t. t mod 365) (totalDays pixel)"

definition band3Str :: "byte list \<Rightarrow> string" where
  "band3Str pixel = pad (array_get pixel 2)"

definition rawIntensity :: "byte list \<Rightarrow> number" where
  "rawIntensity pixel = parseInt (slice (band3Str pixel) 1 3)"

record decoded =
  confidence :: number
  intensity :: number
  date :: number

definition decodeDate :: "byte list \<Rightarrow> decoded" where
  "decodeDate pixel =
     \<lparr> confidence = map_option (\<lambda>c. c - 1) (parseInt (band3Str pixel)),
       intensity =
         map_option (\<lambda>raw. if raw * 50 > 255 then 255 else raw * 50) (rawIntensity pixel),
       date =
         (case (year pixel, julianDay pixel) of
            (Some y, Some j) \<Rightarrow> Some (y + j)
          | _ \<Rightarrow> None) \<rparr>"

section \<open>Tile addressing\<close>

text \<open>
  Map coordinates and the resolution are JavaScript doubles; they are idealised as real
  numbers. A division by a tile size of zero map units gives an infinity or \<open>NaN\<close>, not
  a tile index: that result is \<open>None\<close>.
\<close>

record tileInfo =
  rows :: real
  cols :: real
  origin_x :: real
  origin_y :: real

definition getTileRow :: "tileInfo \<Rightarrow> int \<Rightarrow> real \<Rightarrow> real \<Rightarrow> int option" where
  "getTileRow ti lvl latitude resolution =
     (let tileSizeInMapUnits = rows ti * resolution;
          origin = origin_y ti
      in if tileSizeInMapUnits = 0 then None
         else Some \<lfloor>(origin - latitude) / tileSizeInMapUnits\<rfloor>)"

definition getTileColumn :: "tileInfo \<Rightarrow> int \<Rightarrow> real \<Rightarrow> real \<Rightarrow> int option" where
  "getTileColumn ti lvl longitude resolution =
     (let tileSizeInMapUnits = cols ti * resolution;
          origin = origin_x ti
      in if tileSizeInMapUnits = 0 then None
         else Some \<lfloor>(longitude - origin) / tileSizeInMapUnits\<rfloor>)"

text \<open>The \<open>{x, y, z}\<close> objects that \<open>getTileStats\<close> pushes.\<close>

record stat =
  stat_x :: int
  stat_y :: int
  stat_z :: int

text \<open>The inner loop of \<open>getTileStats\<close>, over \<open>row\<close>, and the outer one, over \<open>col\<close>.\<close>

function rowLoop :: "int \<Rightarrow> int \<Rightarrow> int \<Rightarrow> int \<Rightarrow> stat list \<Rightarrow> stat list" where
  "rowLoop col row rowMax lvl stats =
     (if row \<le> rowMax
      then rowLoop col (row + 1) rowMax lvl (stats @ [\<lparr>stat_x = col, stat_y = row, stat_z = lvl\<rparr>])
      else stats)"
  by pat_completeness auto
termination
  by (relation "measure (\<lambda>(col, row, rowMax, lvl, stats). nat (rowMax + 1 - row))") auto

function colLoop :: "int \<Rightarrow> int \<Rightarrow> int \<Rightarrow> int \<Rightarrow> int \<Rightarrow> stat list \<Rightarrow> stat list" where
  "colLoop col colMax rowMin rowMax lvl stats =
     (if col \<le> colMax
      then colLoop (col + 1) colMax rowMin rowMax lvl (rowLoop col rowMin rowMax lvl stats)
      else stats)"
  by pat_completeness auto
termination
  by (relation "measure (\<lambda>(col, colMax, rowMin, rowMax, lvl, stats). nat (colMax + 1 - col))") auto

declare rowLoop.simps [simp del] colLoop.simps [simp del]

definition getTileStats :: "int \<Rightarrow> int \<Rightarrow> int \<Rightarrow> int \<Rightarrow> int \<Rightarrow> stat list" where
  "getTileStats colMin colMax rowMin rowMax lvl = colLoop colMin colMax rowMin rowMax lvl []"

section \<open>The layer\<close>

text \<open>
  The drawing surface: the canvas element with its \<open>style.display\<close> and the bytes of
  its backing store (four per pixel). The browser is taken to support canvas, so that
  \<open>getContext('2d')\<close> is an object.
\<close>

record canvas =
  display :: string
  pixels :: "byte list"

text \<open>What the layer reads from the host map.\<close>

record extent =
  xmin :: real
  xmax :: real
  ymin :: real
  ymax :: real

record hostmap =
  map_resolution :: real
  map_level :: int
  map_extent :: extent
  map_tileInfo :: tileInfo

text \<open>
  A request sent by \<open>getTile\<close>, and an image whose \<open>src\<close> was set from a response and
  whose \<open>onload\<close> will draw it.
\<close>

record request =
  url :: string
  request_level :: int
  request_row :: int
  request_col :: int

record image_load =
  image_bytes :: "byte list"
  image_level :: int
  image_row :: int
  image_col :: int

text \<open>
  The layer object: its fields (\<open>host_map\<close> is \<open>_map\<close>, \<open>element\<close> is \<open>_element\<close>, created
  by \<open>_setMap\<close>), and what it has started outside itself: the requests sent and the
  images loading.
\<close>

record layer =
  minDateValue :: int
  maxDateValue :: int
  visible :: bool
  loaded :: bool
  host_map :: "hostmap option"
  element :: "canvas option"
  requests :: "request list"
  loading :: "image_load list"

text \<open>
  \<open>TypeError\<close>: a property of \<open>null\<close> or \<open>undefined\<close> is read. \<open>NonFinite\<close>: a tile bound
  of the extent is not a tile index (see \<open>getTileRow\<close>); what the loops of
  \<open>getTileStats\<close> do with such a bound is not part of this model.
\<close>

datatype error = TypeError | NonFinite

text \<open>
  The constructor's argument: \<open>None\<close> when it is called without an object, and then
  \<open>options.visible\<close> throws. The \<open>visible\<close> option of a layer is a Boolean, or absent.
\<close>

record options =
  options_visible :: "bool option"

text \<open>\<open>a || b\<close> for a Boolean or absent \<open>a\<close>: \<open>a\<close> when it is true, otherwise \<open>b\<close>.\<close>

definition js_or :: "bool option \<Rightarrow> bool \<Rightarrow> bool" where
  "js_or a b = (case a of Some True \<Rightarrow> True | _ \<Rightarrow> b)"

definition constructor :: "options option \<Rightarrow> error + layer" where
  "constructor opts =
     (case opts of
        None \<Rightarrow> Inl TypeError
      | Some os \<Rightarrow>
          Inr \<lparr> minDateValue = 15000, maxDateValue = 16365,
                visible = js_or (options_visible os) True, loaded = True,
                host_map = None, element = None, requests = [], loading = [] \<rparr>)"

definition unsetMap :: "layer \<Rightarrow> layer" where
  "unsetMap this = this\<lparr>host_map := None\<rparr>"

text \<open>
  \<open>context.clearRect(0, 0, canvas.width, canvas.height)\<close>: the rectangle is the whole
  canvas, every pixel of it becomes transparent black.
\<close>

definition clearRect :: "canvas \<Rightarrow> canvas" where
  "clearRect c = c\<lparr>pixels := replicate (length (pixels c)) 0\<rparr>"

text \<open>\<open>_clear\<close>.\<close>

definition internal_clear :: "layer \<Rightarrow> layer" where
  "internal_clear this =
     (if \<not> visible this \<or> element this = None then this
      else this\<lparr>element := map_option clearRect (element this)\<rparr>)"

text \<open>
  \<open>getTile\<close> sends the request; its \<open>onreadystatechange\<close> callback is a function of
  its own below.
\<close>

definition getTile :: "layer \<Rightarrow> int \<Rightarrow> int \<Rightarrow> int \<Rightarrow> int \<Rightarrow> int \<Rightarrow> layer" where
  "getTile this lvl row col baseRow baseCol =
     (let u = ''//wri-tiles.s3.amazonaws.com/glad_test/test2/'' @ string_of_int lvl @ ''/''
                @ string_of_int col @ ''/'' @ string_of_int row @ ''.png''
      in this\<lparr>requests := requests this
           @ [\<lparr>url = u, request_level = lvl, request_row = row, request_col = col\<rparr>]\<rparr>)"

text \<open>
  The callback, called by the browser with the request's \<open>readyState\<close>, \<open>status\<close> and
  response. A transport error ends the request with \<open>readyState\<close> 4 and \<open>status\<close> 0.
  On success the response becomes the source of an image, whose \<open>onload\<close> calls
  \<open>drawToCanvas\<close>; the drawing primitives of the canvas and the projection of the host
  map are not modelled, the image is recorded in \<open>loading\<close>.
\<close>

definition onreadystatechange :: "layer \<Rightarrow> request \<Rightarrow> nat \<Rightarrow> nat \<Rightarrow> byte list \<Rightarrow> layer" where
  "onreadystatechange self req readyState status response =
     (if readyState = 4 \<and> status = 200
      then self\<lparr>loading := loading self
             @ [\<lparr>image_bytes = response, image_level = request_level req,
                  image_row = request_row req, image_col = request_col req\<rparr>]\<rparr>
      else self)"

text \<open>\<open>_update\<close>. Reading the resolution of a null \<open>_map\<close> throws.\<close>

definition internal_update :: "layer \<Rightarrow> error + layer" where
  "internal_update this =
     (if \<not> visible this then Inr this
      else case host_map this of
        None \<Rightarrow> Inl TypeError
      | Some m \<Rightarrow>
          (let resolution = map_resolution m;
               lvl = map_level m;
               ext = map_extent m;
               colMin = getTileColumn (map_tileInfo m) lvl (xmin ext) resolution;
               colMax = getTileColumn (map_tileInfo m) lvl (xmax ext) resolution;
               rowMin = getTileRow (map_tileInfo m) lvl (ymax ext) resolution;
               rowMax = getTileRow (map_tileInfo m) lvl (ymin ext) resolution
           in case (colMin, colMax, rowMin, rowMax) of
                (Some cmin, Some cmax, Some rmin, Some rmax) \<Rightarrow>
                  Inr (foldl (\<lambda>t s. getTile t (stat_z s) (stat_y s) (stat_x s) rmin cmin) this
                         (getTileStats cmin cmax rmin rmax lvl))
              | _ \<Rightarrow> Inl NonFinite))"

text \<open>\<open>show\<close>, \<open>hide\<close> and \<open>forceUpdate\<close>.\<close>

definition show_layer :: "layer \<Rightarrow> error + layer" where
  "show_layer this =
     (case element this of
        None \<Rightarrow> Inr this
      | Some el \<Rightarrow>
          internal_update (this\<lparr>element := Some (el\<lparr>display := ''block''\<rparr>), visible := True\<rparr>))"

definition hide :: "layer \<Rightarrow> layer" where
  "hide this =
     (case element this of
        None \<Rightarrow> this
      | Some el \<Rightarrow>
          internal_clear (this\<lparr>element := Some (el\<lparr>display := ''none''\<rparr>), visible := False\<rparr>))"

definition forceUpdate :: "layer \<Rightarrow> error + layer" where
  "forceUpdate this =
     (if element this \<noteq> None \<and> visible this then internal_update (internal_clear this)
      else Inr this)"

section \<open>Filter\<close>

text \<open>
  \<open>filterData\<close> loops over \<open>i = 0, 4, 8, ...\<close>; \<open>this\<close> gives the date range. A
  comparison with \<open>NaN\<close> is false.
\<close>

definition in_range :: "layer \<Rightarrow> number \<Rightarrow> bool" where
  "in_range this d =
     (case d of None \<Rightarrow> False | Some v \<Rightarrow> v \<ge> minDateValue this \<and> v \<le> maxDateValue this)"

text \<open>One pass through the loop body, at index \<open>i\<close>.\<close>

definition filterBody :: "layer \<Rightarrow> byte list \<Rightarrow> nat \<Rightarrow> byte list" where
  "filterBody this data i =
     (let values = decodeDate (array_slice data i (i + 4))
      in if in_range this (date values)
         then store data (i + 3) (intensity values)
         else store data (i + 3) (Some 0))"

function filterLoop :: "layer \<Rightarrow> byte list \<Rightarrow> nat \<Rightarrow> byte list" where
  "filterLoop this data i =
     (if i < length data then filterLoop this (filterBody this data i) (i + 4) else data)"
  by pat_completeness auto
termination
  by (relation "measure (\<lambda>(this, data, i). length data - i)")
    (auto simp: filterBody_def store_def Let_def)

declare filterLoop.simps [simp del]

definition filterData :: "layer \<Rightarrow> byte list \<Rightarrow> byte list" where
  "filterData this data = filterLoop this data 0"

section \<open>An example layer\<close>

text \<open>
  A map whose extent lies in the single tile \<open>(0, 0)\<close> of level 5, and a layer attached to
  it whose surface holds one opaque pixel.
\<close>

definition example_map :: hostmap where
  "example_map =
     \<lparr> map_resolution = 1, map_level = 5,
       map_extent = \<lparr>xmin = 0, xmax = 100, ymin = 0, ymax = 100\<rparr>,
       map_tileInfo = \<lparr>rows = 256, cols = 256, origin_x = 0, origin_y = 200\<rparr> \<rparr>"

definition example_layer :: layer where
  "example_layer =
     \<lparr> minDateValue = 15000, maxDateValue = 16365, visible = True, loaded = True,
       host_map = Some example_map,
       element = Some \<lparr>display = ''block'', pixels = [0, 1, 131, 255]\<rparr>,
       requests = [], loading = [] \<rparr>"

definition hidden_layer :: layer where
  "hidden_layer =
     example_layer\<lparr>visible := False,
       element := Some \<lparr>display = ''none'', pixels = [0, 1, 131, 255]\<rparr>\<rparr>"

section \<open>Properties of the codec\<close>

subsection \<open>Digits and parseInt\<close>

lemma of_char_digit_char: "d < 10 \<Longrightarrow> of_char (digit_char d) = (48 + d :: nat)"
  by (simp add: digit_char_def)

lemma digit_value_digit_char: "d < 10 \<Longrightarrow> digit_value (digit_char d) = Some d"
  by (simp add: digit_value_def of_char_digit_char)

lemma is_digit_of_digit_char: "d < 10 \<Longrightarrow> is_digit_of 10 (digit_char d)"
  by (simp add: is_digit_of_def digit_value_digit_char)

lemma not_space_digit_char: "d < 10 \<Longrightarrow> \<not> is_space (digit_char d)"
  by (simp add: is_space_def of_char_digit_char)

lemma digit_char_neq:
  assumes "d < 10" and "of_char c < (48 :: nat) \<or> (57 :: nat) < of_char c"
  shows "digit_char d \<noteq> c"
proof
  assume "digit_char d = c"
  then have "of_char c = (48 + d :: nat)"
    using of_char_digit_char [OF assms(1)] by simp
  with assms show False by auto
qed

lemma digit_char_0: "digit_char 0 = CHR ''0''"
  by code_simp

lemma decimal_small: "n < 10 \<Longrightarrow> decimal n = [digit_char n]"
  by (subst decimal.simps) simp

lemma decimal_step: "10 \<le> n \<Longrightarrow> decimal n = decimal (n div 10) @ [digit_char (n mod 10)]"
  by (subst decimal.simps) simp

lemma decimal_two: "10 \<le> n \<Longrightarrow> n < 100 \<Longrightarrow> decimal n = [digit_char (n div 10), digit_char (n mod 10)]"
  by (simp add: decimal_step decimal_small)

lemma decimal_three:
  assumes "100 \<le> n" and "n < 1000"
  shows "decimal n = [digit_char (n div 100), digit_char (n div 10 mod 10), digit_char (n mod 10)]"
proof -
  have "10 \<le> n div 10" "n div 10 < 100" using assms by auto
  then have "decimal (n div 10) = [digit_char (n div 10 div 10), digit_char (n div 10 mod 10)]"
    by (rule decimal_two)
  moreover have "n div 10 div 10 = n div 100" by (simp add: div_mult2_eq)
  ultimately show ?thesis using assms by (simp add: decimal_step)
qed

lemma pad_digits:
  assumes "0 \<le> b" and "b < 1000"
  shows "pad (Some b) = [digit_char (nat b div 100), digit_char (nat b div 10 mod 10), digit_char (nat b mod 10)]"
proof -
  consider "nat b < 10" | "10 \<le> nat b" "nat b < 100" | "100 \<le> nat b" "nat b < 1000"
    using assms by linarith
  then show ?thesis
  proof cases
    case 1
    then show ?thesis using assms
      by (simp add: pad_def to_string_def string_of_int_def decimal_small slice_from_def
          slice_index_def digit_char_0)
  next
    case 2
    then show ?thesis using assms
      by (simp add: pad_def to_string_def string_of_int_def decimal_two slice_from_def
          slice_index_def digit_char_0)
  next
    case 3
    then show ?thesis using assms
      by (simp add: pad_def to_string_def string_of_int_def decimal_three slice_from_def
          slice_index_def)
  qed
qed

lemma parseInt_digits3:
  assumes "a < 10" "b < 10" "c < 10"
  shows "parseInt [digit_char a, digit_char b, digit_char c] = Some (int (a * 100 + b * 10 + c))"
proof -
  have ne: "digit_char a \<noteq> CHR ''-''" "digit_char a \<noteq> CHR ''+''"
    "digit_char b \<noteq> CHR ''x''" "digit_char b \<noteq> CHR ''X''"
    using assms by (simp_all add: digit_char_neq)
  show ?thesis using assms ne
    by (simp add: parseInt_def parse_digits_def digits_value_def not_space_digit_char
        is_digit_of_digit_char digit_value_digit_char Let_def)
qed

lemma parseInt_digits2:
  assumes "b < 10" "c < 10"
  shows "parseInt [digit_char b, digit_char c] = Some (int (b * 10 + c))"
proof -
  have ne: "digit_char b \<noteq> CHR ''-''" "digit_char b \<noteq> CHR ''+''"
    "digit_char c \<noteq> CHR ''x''" "digit_char c \<noteq> CHR ''X''"
    using assms by (simp_all add: digit_char_neq)
  show ?thesis using assms ne
    by (simp add: parseInt_def parse_digits_def digits_value_def not_space_digit_char
        is_digit_of_digit_char digit_value_digit_char Let_def)
qed

lemma slice_1_3: "slice [a, b, c] 1 3 = [b, c]"
  by (simp add: slice_def slice_index_def)

lemma parseInt_pad:
  assumes "0 \<le> b" and "b < 1000"
  shows "parseInt (pad (Some b)) = Some b"
proof -
  have "nat b div 100 < 10" "nat b div 10 mod 10 < 10" "nat b mod 10 < 10"
    using assms by auto
  then have "parseInt (pad (Some b)) = Some (int (nat b div 100 * 100 + nat b div 10 mod 10 * 10 + nat b mod 10))"
    using assms by (simp only: pad_digits parseInt_digits3)
  moreover have "nat b div 100 * 100 + nat b div 10 mod 10 * 10 + nat b mod 10 = nat b"
    using mod_mult2_eq [of "nat b" 10 10] div_mult_mod_eq [of "nat b" 100] by simp
  ultimately show ?thesis using assms by simp
qed

lemma parseInt_pad_tail:
  assumes "0 \<le> b" and "b < 1000"
  shows "parseInt (slice (pad (Some b)) 1 3) = Some (b mod 100)"
proof -
  have "nat b div 10 mod 10 < 10" "nat b mod 10 < 10"
    by auto
  then have "parseInt (slice (pad (Some b)) 1 3) = Some (int (nat b div 10 mod 10 * 10 + nat b mod 10))"
    using assms by (simp only: pad_digits slice_1_3 parseInt_digits2)
  moreover have "nat b div 10 mod 10 * 10 + nat b mod 10 = nat b mod 100"
    using mod_mult2_eq [of "nat b" 10 10] by simp
  ultimately show ?thesis using assms by (simp add: of_nat_mod)
qed

lemma array_get_4:
  "array_get [r, g, b, a] 0 = Some (uint r)"
  "array_get [r, g, b, a] 1 = Some (uint g)"
  "array_get [r, g, b, a] (Suc 0) = Some (uint g)"
  "array_get [r, g, b, a] 2 = Some (uint b)"
  by (simp_all add: array_get_def)

lemma uint_byte: "0 \<le> uint (b :: byte)" "uint (b :: byte) < 1000"
  using uint_bounded [of b] by simp_all

lemma band3Str_digits:
  "band3Str [r, g, b, a] =
     [digit_char (unat b div 100), digit_char (unat b div 10 mod 10), digit_char (unat b mod 10)]"
  by (simp add: band3Str_def array_get_4 pad_digits uint_byte)

lemma is_digit_band3Str: "list_all (is_digit_of 10) (band3Str [r, g, b, a])"
proof -
  have "unat b < 1000"
    using unsigned_less [of b, where ?'a = nat] by simp
  then have "unat b div 100 < 10" "unat b div 10 mod 10 < 10" "unat b mod 10 < 10"
    by auto
  then show ?thesis
    by (simp add: band3Str_digits is_digit_of_digit_char)
qed

lemma rawIntensity_bytes:
  fixes r g b a :: byte
  shows "rawIntensity [r, g, b, a] = Some (uint b mod 100)"
  by (simp add: rawIntensity_def band3Str_def array_get_4 parseInt_pad_tail uint_byte)

lemma decodeDate_4:
  fixes r g b a :: byte
  shows "date (decodeDate [r, g, b, a])
        = Some (((uint r * 255 + uint g) div 365 + 15) * 1000 + (uint r * 255 + uint g) mod 365)"
    and "intensity (decodeDate [r, g, b, a]) = Some (min (uint b mod 100 * 50) 255)"
  by (simp_all add: decodeDate_def year_def yearAsInt_def julianDay_def totalDays_def array_get_4
      rawIntensity_bytes min_def)

subsection \<open>The decoder on four bytes\<close>

text \<open>
  Claim C10. On four byte values \<open>[r, g, b, a]\<close> the decoder never meets \<open>NaN\<close>: \<open>pad\<close>
  gives a string of three decimal digits, both \<open>parseInt\<close> calls return a number,
  \<open>parseInt(pad(b))\<close> is \<open>b\<close>, the confidence is \<open>b - 1\<close>, the raw intensity is
  \<open>b mod 100\<close>, and the intensity and the date are numbers as well. \<open>decodeDate\<close> has no
  failure branch: it returns a record for every pixel.
\<close>

theorem decodeDate_total:
  fixes r g b a :: byte
  shows "length (pad (Some (uint b))) = 3 \<and> list_all (is_digit_of 10) (pad (Some (uint b)))
    \<and> parseInt (pad (Some (uint b))) = Some (uint b)
    \<and> parseInt (slice (pad (Some (uint b))) 1 3) = Some (uint b mod 100)
    \<and> band3Str [r, g, b, a] = pad (Some (uint b))
    \<and> rawIntensity [r, g, b, a] = Some (uint b mod 100)
    \<and> confidence (decodeDate [r, g, b, a]) = Some (uint b - 1)
    \<and> intensity (decodeDate [r, g, b, a]) = Some (min (uint b mod 100 * 50) 255)
    \<and> date (decodeDate [r, g, b, a])
        = Some (((uint r * 255 + uint g) div 365 + 15) * 1000 + (uint r * 255 + uint g) mod 365)"
proof -
  have p: "pad (Some (uint b)) = band3Str [r, g, b, a]"
    by (simp add: band3Str_def array_get_4)
  have c: "parseInt (band3Str [r, g, b, a]) = Some (uint b)"
    by (simp add: band3Str_def array_get_4 parseInt_pad uint_byte)
  have i: "rawIntensity [r, g, b, a] = Some (uint b mod 100)"
    by (rule rawIntensity_bytes)
  have "length (band3Str [r, g, b, a]) = 3"
    by (simp add: band3Str_digits)
  moreover have "confidence (decodeDate [r, g, b, a]) = Some (uint b - 1)"
    by (simp add: decodeDate_def c)
  moreover have "parseInt (slice (band3Str [r, g, b, a]) 1 3) = Some (uint b mod 100)"
    using i by (simp add: rawIntensity_def)
  ultimately show ?thesis
    using c i decodeDate_4 [of r g b a] is_digit_band3Str [of r g b a] by (simp only: p simp_thms)
qed

text \<open>
  Claim C3, as amended. The pixel \<open>[0, 1, 31, 255]\<close> decodes to \<open>totalDays = 1\<close>,
  \<open>yearAsInt = 15\<close> and \<open>date = 15001\<close>; for every pixel of four bytes
  \<open>yearAsInt = totalDays div 365 + 15\<close> and \<open>date = yearAsInt * 1000 + totalDays mod 365\<close>,
  with \<open>totalDays = r * 255 + g\<close>.
\<close>

theorem decodeDate_known_vector:
  fixes r g b a :: byte
  shows "totalDays [0, 1, 31, 255] = Some 1 \<and> yearAsInt [0, 1, 31, 255] = Some 15
   \<and> date (decodeDate [0, 1, 31, 255]) = Some 15001
   \<and> totalDays [r, g, b, a] = Some (uint r * 255 + uint g)
   \<and> yearAsInt [r, g, b, a] = Some ((uint r * 255 + uint g) div 365 + 15)
   \<and> date (decodeDate [r, g, b, a])
        = Some (((uint r * 255 + uint g) div 365 + 15) * 1000 + (uint r * 255 + uint g) mod 365)"
  by (simp add: decodeDate_def year_def yearAsInt_def julianDay_def totalDays_def array_get_def)

text \<open>
  Claim C3 as stated fails: the date decoded from \<open>[0, 1, 31, 255]\<close> is \<open>15001\<close>, the
  year part \<open>15000\<close> plus the Julian day \<open>1\<close>, not \<open>15000\<close>.
\<close>

theorem decodeDate_known_vector_date:
  "date (decodeDate [0, 1, 31, 255]) = Some 15001
   \<and> date (decodeDate [0, 1, 31, 255]) \<noteq> Some 15000"
  by (simp add: decodeDate_def year_def yearAsInt_def julianDay_def totalDays_def array_get_def)

text \<open>
  Claim C2. The confidence is \<open>parseInt\<close> of all three digits of the blue band, minus 1:
  for the blue value \<open>131\<close> (class 1, intensity 31) it is \<open>130\<close>, and for \<open>31\<close> it is
  \<open>30\<close>, neither of them 0 or 1.
\<close>

theorem decodeDate_confidence_131:
  "confidence (decodeDate [0, 1, 131, 255]) = Some 130
   \<and> confidence (decodeDate [0, 1, 31, 255]) = Some 30"
  by code_simp

section \<open>Properties of the tile rectangle\<close>

lemma rowLoop_eq:
  "rowLoop col row rowMax lvl stats
     = stats @ map (\<lambda>r. \<lparr>stat_x = col, stat_y = r, stat_z = lvl\<rparr>) [row..rowMax]"
proof (induction col row rowMax lvl stats rule: rowLoop.induct)
  case (1 col row rowMax lvl stats)
  show ?case
  proof (cases "row \<le> rowMax")
    case True
    then have "[row..rowMax] = row # [row + 1..rowMax]"
      by (simp add: upto_rec1)
    with True "1" show ?thesis
      by (subst rowLoop.simps) simp
  next
    case False
    then show ?thesis
      by (subst rowLoop.simps) simp
  qed
qed

lemma colLoop_eq:
  "colLoop col colMax rowMin rowMax lvl stats
     = stats @ concat (map (\<lambda>c. map (\<lambda>r. \<lparr>stat_x = c, stat_y = r, stat_z = lvl\<rparr>) [rowMin..rowMax])
                        [col..colMax])"
proof (induction col colMax rowMin rowMax lvl stats rule: colLoop.induct)
  case (1 col colMax rowMin rowMax lvl stats)
  show ?case
  proof (cases "col \<le> colMax")
    case True
    then have "[col..colMax] = col # [col + 1..colMax]"
      by (simp add: upto_rec1)
    with True "1" show ?thesis
      by (subst colLoop.simps) (simp add: rowLoop_eq)
  next
    case False
    then show ?thesis
      by (subst colLoop.simps) simp
  qed
qed

lemma getTileStats_set: "set (getTileStats colMin colMax rowMin rowMax lvl)
     = (\<lambda>(c, r). \<lparr>stat_x = c, stat_y = r, stat_z = lvl\<rparr>) ` ({colMin..colMax} \<times> {rowMin..rowMax})"
  by (auto simp: getTileStats_def colLoop_eq)

lemma getTileStats_distinct: "distinct (getTileStats colMin colMax rowMin rowMax lvl)"
proof (cases "rowMin \<le> rowMax")
  case False
  have e: "concat (map (\<lambda>c. []) cs) = ([] :: stat list)" for cs :: "int list"
    by (induction cs) simp_all
  from False show ?thesis
    by (simp add: getTileStats_def colLoop_eq e)
next
  case True
  then have "[rowMin..rowMax] = rowMin # [rowMin + 1..rowMax]"
    by (simp add: upto_rec1)
  then have "inj (\<lambda>c. map (\<lambda>r. \<lparr>stat_x = c, stat_y = r, stat_z = lvl\<rparr>) [rowMin..rowMax])"
    by (simp add: inj_on_def)
  then have "distinct (map (\<lambda>c. map (\<lambda>r. \<lparr>stat_x = c, stat_y = r, stat_z = lvl\<rparr>) [rowMin..rowMax])
                        [colMin..colMax])"
    by (simp add: distinct_map inj_on_def)
  then have "distinct (concat (map (\<lambda>c. map (\<lambda>r. \<lparr>stat_x = c, stat_y = r, stat_z = lvl\<rparr>) [rowMin..rowMax])
                        [colMin..colMax]))"
  proof (rule distinct_concat)
    fix ys
    assume "ys \<in> set (map (\<lambda>c. map (\<lambda>r. \<lparr>stat_x = c, stat_y = r, stat_z = lvl\<rparr>) [rowMin..rowMax])
                        [colMin..colMax])"
    then show "distinct ys"
      by (auto simp: distinct_map inj_on_def)
  next
    fix ys zs
    assume "ys \<in> set (map (\<lambda>c. map (\<lambda>r. \<lparr>stat_x = c, stat_y = r, stat_z = lvl\<rparr>) [rowMin..rowMax])
                        [colMin..colMax])"
      and "zs \<in> set (map (\<lambda>c. map (\<lambda>r. \<lparr>stat_x = c, stat_y = r, stat_z = lvl\<rparr>) [rowMin..rowMax])
                        [colMin..colMax])"
      and "ys \<noteq> zs"
    then show "set ys \<inter> set zs = {}"
      by auto
  qed
  then show ?thesis
    by (simp add: getTileStats_def colLoop_eq)
qed

lemma getTileStats_length: "length (getTileStats colMin colMax rowMin rowMax lvl)
   = nat (colMax - colMin + 1) * nat (rowMax - rowMin + 1)"
  by (simp add: getTileStats_def colLoop_eq length_concat comp_def sum_list_triv)

text \<open>
  Claim C7. \<open>getTileStats\<close> returns the pairs of a column in \<open>colMin..colMax\<close> and a row
  in \<open>rowMin..rowMax\<close>, bounds included, each once, column by column and within a
  column row by row, all at the given level; with equal bounds it is one tile, and with
  a minimum above its maximum it is empty.
\<close>

theorem getTileStats_rectangle:
  "getTileStats colMin colMax rowMin rowMax lvl
     = concat (map (\<lambda>c. map (\<lambda>r. \<lparr>stat_x = c, stat_y = r, stat_z = lvl\<rparr>) [rowMin..rowMax])
                 [colMin..colMax])
   \<and> set (getTileStats colMin colMax rowMin rowMax lvl)
       = (\<lambda>(c, r). \<lparr>stat_x = c, stat_y = r, stat_z = lvl\<rparr>) ` ({colMin..colMax} \<times> {rowMin..rowMax})
   \<and> distinct (getTileStats colMin colMax rowMin rowMax lvl)
   \<and> length (getTileStats colMin colMax rowMin rowMax lvl)
       = nat (colMax - colMin + 1) * nat (rowMax - rowMin + 1)
   \<and> (colMin = colMax \<and> rowMin = rowMax \<longrightarrow>
        getTileStats colMin colMax rowMin rowMax lvl
          = [\<lparr>stat_x = colMin, stat_y = rowMin, stat_z = lvl\<rparr>])
   \<and> (colMax < colMin \<or> rowMax < rowMin \<longrightarrow>
        getTileStats colMin colMax rowMin rowMax lvl = [])"
proof -
  have "getTileStats colMin colMax rowMin rowMax lvl
     = concat (map (\<lambda>c. map (\<lambda>r. \<lparr>stat_x = c, stat_y = r, stat_z = lvl\<rparr>) [rowMin..rowMax])
                 [colMin..colMax])"
    by (simp add: getTileStats_def colLoop_eq)
  moreover have "colMin = colMax \<and> rowMin = rowMax \<longrightarrow>
        getTileStats colMin colMax rowMin rowMax lvl
          = [\<lparr>stat_x = colMin, stat_y = rowMin, stat_z = lvl\<rparr>]"
    by (simp add: getTileStats_def colLoop_eq)
  moreover have "colMax < colMin \<or> rowMax < rowMin \<longrightarrow>
        getTileStats colMin colMax rowMin rowMax lvl = []"
    by (auto simp: getTileStats_def colLoop_eq)
  ultimately show ?thesis
    using getTileStats_set [of colMin colMax rowMin rowMax lvl]
      getTileStats_distinct [of colMin colMax rowMin rowMax lvl]
      getTileStats_length [of colMin colMax rowMin rowMax lvl]
    by (intro conjI)
qed

theorem getTileStats_rectangle_witness:
  "getTileStats 3 3 5 5 2 = [\<lparr>stat_x = 3, stat_y = 5, stat_z = 2\<rparr>]
   \<and> getTileStats 2 1 0 0 5 = []
   \<and> getTileStats 1 2 3 4 7
       = [\<lparr>stat_x = 1, stat_y = 3, stat_z = 7\<rparr>, \<lparr>stat_x = 1, stat_y = 4, stat_z = 7\<rparr>,
          \<lparr>stat_x = 2, stat_y = 3, stat_z = 7\<rparr>, \<lparr>stat_x = 2, stat_y = 4, stat_z = 7\<rparr>]"
proof -
  have "getTileStats 3 3 5 5 2 = [\<lparr>stat_x = 3, stat_y = 5, stat_z = 2\<rparr>]"
    using getTileStats_rectangle [of 3 3 5 5 2] by simp
  moreover have "getTileStats 2 1 0 0 5 = []"
    using getTileStats_rectangle [of 2 1 0 0 5] by simp
  moreover have "[1..2] = [1, 2 :: int]" "[3..4] = [3, 4 :: int]"
    by (simp_all add: upto_rec1)
  then have "getTileStats 1 2 3 4 7
       = [\<lparr>stat_x = 1, stat_y = 3, stat_z = 7\<rparr>, \<lparr>stat_x = 1, stat_y = 4, stat_z = 7\<rparr>,
          \<lparr>stat_x = 2, stat_y = 3, stat_z = 7\<rparr>, \<lparr>stat_x = 2, stat_y = 4, stat_z = 7\<rparr>]"
    using getTileStats_rectangle [of 1 2 3 4 7] by simp
  ultimately show ?thesis by simp
qed

section \<open>Properties of the filter\<close>

lemma length_filterBody: "length (filterBody this data i) = length data"
  by (simp add: filterBody_def store_def Let_def)

lemma filterBody_nth:
  "k < length data \<Longrightarrow>
   filterBody this data i ! k =
     (if k = i + 3
      then clamp_byte (if in_range this (date (decodeDate (array_slice data i (i + 4))))
                       then intensity (decodeDate (array_slice data i (i + 4))) else Some 0)
      else data ! k)"
  by (simp add: filterBody_def store_def Let_def)

lemma length_filterLoop: "length (filterLoop this data i) = length data"
proof (induction this data i rule: filterLoop.induct)
  case (1 this data i)
  then show ?case
    by (subst filterLoop.simps) (simp add: length_filterBody)
qed

lemma array_slice_filterBody:
  assumes "i + 4 \<le> j"
  shows "array_slice (filterBody this data i) j (j + 4) = array_slice data j (j + 4)"
proof -
  have "drop j (filterBody this data i) = drop j data"
    using assms by (simp add: filterBody_def store_def Let_def)
  then show ?thesis
    by (simp add: array_slice_def)
qed

lemma filterLoop_nth:
  "i mod 4 = 0 \<Longrightarrow> k < length data \<Longrightarrow>
   filterLoop this data i ! k =
     (if i \<le> k \<and> k mod 4 = 3
      then clamp_byte (if in_range this (date (decodeDate (array_slice data (k - 3) (k - 3 + 4))))
                       then intensity (decodeDate (array_slice data (k - 3) (k - 3 + 4))) else Some 0)
      else data ! k)"
proof (induction this data i rule: filterLoop.induct)
  case (1 this data i)
  show ?case
  proof (cases "i < length data")
    case False
    with "1.prems" show ?thesis
      by (subst filterLoop.simps) simp
  next
    case True
    have m: "(i + 4) mod 4 = 0"
      using "1.prems"(1) by presburger
    have k: "k < length (filterBody this data i)"
      using "1.prems"(2) by (simp add: length_filterBody)
    have step: "filterLoop this data i ! k = filterLoop this (filterBody this data i) (i + 4) ! k"
      using True by (subst filterLoop.simps) simp
    note ih = "1.IH" [OF True m k]
    show ?thesis
    proof (cases "i + 4 \<le> k \<and> k mod 4 = 3")
      case True
      then have "i + 4 \<le> k - 3"
        using "1.prems"(1) by presburger
      then have "array_slice (filterBody this data i) (k - 3) (k - 3 + 4)
                   = array_slice data (k - 3) (k - 3 + 4)"
        by (rule array_slice_filterBody)
      with True step ih show ?thesis by simp
    next
      case False
      then have "filterLoop this data i ! k = filterBody this data i ! k"
        using step ih by auto
      also have "\<dots> = (if k = i + 3
          then clamp_byte (if in_range this (date (decodeDate (array_slice data i (i + 4))))
                       then intensity (decodeDate (array_slice data i (i + 4))) else Some 0)
          else data ! k)"
        using "1.prems"(2) by (rule filterBody_nth)
      finally have eq: "filterLoop this data i ! k = (if k = i + 3
          then clamp_byte (if in_range this (date (decodeDate (array_slice data i (i + 4))))
                       then intensity (decodeDate (array_slice data i (i + 4))) else Some 0)
          else data ! k)" .
      show ?thesis
      proof (cases "k = i + 3")
        case True
        then have "i \<le> k \<and> k mod 4 = 3" "k - 3 = i"
          using "1.prems"(1) by presburger+
        with eq True show ?thesis by simp
      next
        case neq: False
        with False have "\<not> (i \<le> k \<and> k mod 4 = 3)"
          using "1.prems"(1) by presburger
        with eq neq show ?thesis by auto
      qed
    qed
  qed
qed

lemma decodeDate_take3: "decodeDate (take 3 px) = decodeDate px"
proof -
  have "array_get (take 3 px) 0 = array_get px 0" "array_get (take 3 px) 1 = array_get px 1"
    "array_get (take 3 px) 2 = array_get px 2"
    by (simp_all add: array_get_def)
  then show ?thesis
    by (simp only: decodeDate_def year_def yearAsInt_def julianDay_def totalDays_def
        rawIntensity_def band3Str_def)
qed

lemma decodeDate_cong3: "take 3 px = take 3 py \<Longrightarrow> decodeDate px = decodeDate py"
  by (metis decodeDate_take3)

lemma array_slice_4:
  assumes "i + 3 < length data"
  shows "array_slice data i (i + 4) = [data ! i, data ! (i + 1), data ! (i + 2), data ! (i + 3)]"
proof (rule nth_equalityI)
  show "length (array_slice data i (i + 4)) = length [data ! i, data ! (i + 1), data ! (i + 2), data ! (i + 3)]"
    using assms by (simp add: array_slice_def)
next
  fix m
  assume "m < length (array_slice data i (i + 4))"
  then have "m < 4"
    by (simp add: array_slice_def)
  then consider "m = 0" | "m = 1" | "m = 2" | "m = 3"
    by linarith
  then show "array_slice data i (i + 4) ! m = [data ! i, data ! (i + 1), data ! (i + 2), data ! (i + 3)] ! m"
    using assms by cases (simp_all add: array_slice_def)
qed

lemma filterData_nth:
  "k < length data \<Longrightarrow>
   filterData this data ! k =
     (if k mod 4 = 3
      then clamp_byte (if in_range this (date (decodeDate (array_slice data (k - 3) (k - 3 + 4))))
                       then intensity (decodeDate (array_slice data (k - 3) (k - 3 + 4))) else Some 0)
      else data ! k)"
  using filterLoop_nth [of 0 k data this] by (simp add: filterData_def)

lemma length_filterData: "length (filterData this data) = length data"
  by (simp add: filterData_def length_filterLoop)

lemma take3_slice_filterData:
  assumes "j mod 4 = 0"
  shows "take 3 (array_slice (filterData this data) j (j + 4)) = take 3 (array_slice data j (j + 4))"
proof (rule nth_equalityI)
  show "length (take 3 (array_slice (filterData this data) j (j + 4)))
          = length (take 3 (array_slice data j (j + 4)))"
    by (simp add: array_slice_def length_filterData)
next
  fix m
  assume "m < length (take 3 (array_slice (filterData this data) j (j + 4)))"
  then have m: "m < 3" "j + m < length data"
    by (auto simp: array_slice_def length_filterData)
  then have "(j + m) mod 4 \<noteq> 3"
    using assms by presburger
  then have "filterData this data ! (j + m) = data ! (j + m)"
    using m filterData_nth [of "j + m" data this] by simp
  then show "take 3 (array_slice (filterData this data) j (j + 4)) ! m
          = take 3 (array_slice data j (j + 4)) ! m"
    using m by (simp add: array_slice_def length_filterData)
qed

lemma filterData_idem: "filterData this (filterData this data) = filterData this data"
proof (rule nth_equalityI)
  show "length (filterData this (filterData this data)) = length (filterData this data)"
    by (simp add: length_filterData)
next
  fix k
  assume "k < length (filterData this (filterData this data))"
  then have k: "k < length data" "k < length (filterData this data)"
    by (simp_all add: length_filterData)
  show "filterData this (filterData this data) ! k = filterData this data ! k"
  proof (cases "k mod 4 = 3")
    case True
    then have "(k - 3) mod 4 = 0"
      by presburger
    then have "decodeDate (array_slice (filterData this data) (k - 3) (k - 3 + 4))
                 = decodeDate (array_slice data (k - 3) (k - 3 + 4))"
      by (intro decodeDate_cong3 take3_slice_filterData)
    with True k show ?thesis
      by (simp add: filterData_nth)
  next
    case False
    with k show ?thesis
      by (simp add: filterData_nth)
  qed
qed

lemma uint_clamp_byte: "0 \<le> v \<Longrightarrow> v \<le> 255 \<Longrightarrow> uint (clamp_byte (Some v)) = v"
  by (simp add: clamp_byte_def uint_word_of_int take_bit_int_eq_self)

text \<open>
  Claim C1. For every group of four bytes of the buffer, \<open>filterData\<close> writes to the
  group's alpha byte the decoded intensity when the decoded date lies between
  \<open>minDateValue\<close> and \<open>maxDateValue\<close>, bounds included, and 0 otherwise. So a date of
  \<open>minDateValue - 1\<close> or \<open>maxDateValue + 1\<close> gives alpha 0, and a date equal to a bound of
  a range that is not empty gives the intensity.
\<close>

theorem filterData_alpha:
  assumes "4 * g + 3 < length data"
  shows "\<exists>dt v. date (decodeDate (array_slice data (4 * g) (4 * g + 4))) = Some dt
      \<and> intensity (decodeDate (array_slice data (4 * g) (4 * g + 4))) = Some v
      \<and> uint (filterData this data ! (4 * g + 3))
          = (if minDateValue this \<le> dt \<and> dt \<le> maxDateValue this then v else 0)
      \<and> (dt = minDateValue this - 1 \<or> dt = maxDateValue this + 1 \<longrightarrow>
            filterData this data ! (4 * g + 3) = 0)
      \<and> (minDateValue this \<le> maxDateValue this \<and> (dt = minDateValue this \<or> dt = maxDateValue this) \<longrightarrow>
            uint (filterData this data ! (4 * g + 3)) = v)"
proof -
  define px where "px = array_slice data (4 * g) (4 * g + 4)"
  have px: "px = [data ! (4 * g), data ! (4 * g + 1), data ! (4 * g + 2), data ! (4 * g + 3)]"
    unfolding px_def using assms by (rule array_slice_4)
  obtain dt v where d: "date (decodeDate px) = Some dt" and i: "intensity (decodeDate px) = Some v"
    and v: "0 \<le> v" "v \<le> 255"
    unfolding px by (simp add: decodeDate_4)
  have "(4 * g + 3) mod 4 = 3" "4 * g + 3 - 3 = 4 * g"
    by presburger+
  then have nth: "filterData this data ! (4 * g + 3)
      = clamp_byte (if in_range this (date (decodeDate px)) then intensity (decodeDate px) else Some 0)"
    using assms filterData_nth [of "4 * g + 3" data this] by (simp add: px_def)
  have a: "uint (filterData this data ! (4 * g + 3))
          = (if minDateValue this \<le> dt \<and> dt \<le> maxDateValue this then v else 0)"
    using v by (simp add: nth d i in_range_def uint_clamp_byte)
  then have "(dt = minDateValue this - 1 \<or> dt = maxDateValue this + 1 \<longrightarrow>
            filterData this data ! (4 * g + 3) = 0)"
    by (auto simp: uint_0_iff)
  moreover have "(minDateValue this \<le> maxDateValue this \<and> (dt = minDateValue this \<or> dt = maxDateValue this) \<longrightarrow>
            uint (filterData this data ! (4 * g + 3)) = v)"
    using a by auto
  ultimately show ?thesis
    using a d i unfolding px_def by blast
qed

theorem filterData_alpha_witness:
  "4 * 0 + 3 < length [0, 1, 131, 9 :: byte]
   \<and> uint (filterData example_layer [0, 1, 131, 9] ! (4 * 0 + 3)) = 255"
proof -
  have h: "4 * 0 + 3 < length [0, 1, 131, 9 :: byte]"
    by simp
  obtain dt v where d: "date (decodeDate (array_slice [0, 1, 131, 9] (4 * 0) (4 * 0 + 4))) = Some dt"
    and i: "intensity (decodeDate (array_slice [0, 1, 131, 9] (4 * 0) (4 * 0 + 4))) = Some v"
    and a: "uint (filterData example_layer [0, 1, 131, 9] ! (4 * 0 + 3))
          = (if minDateValue example_layer \<le> dt \<and> dt \<le> maxDateValue example_layer then v else 0)"
    using filterData_alpha [OF h, of example_layer] by blast
  have "date (decodeDate (array_slice [0, 1, 131, 9] (4 * 0) (4 * 0 + 4))) = Some 15001"
    by code_simp
  with d have dt: "dt = 15001" by simp
  have "intensity (decodeDate (array_slice [0, 1, 131, 9] (4 * 0) (4 * 0 + 4))) = Some 255"
    by code_simp
  with i have v: "v = 255" by simp
  show ?thesis
    using h a by (simp add: dt v example_layer_def)
qed

text \<open>
  Claim C6. \<open>filterData\<close> returns a buffer of the same length in which every byte that
  is not an alpha byte (index \<open>k\<close> with \<open>k mod 4 \<noteq> 3\<close>) is unchanged, and filtering the
  result again gives the same buffer.
\<close>

theorem filterData_rgb:
  "length (filterData this data) = length data
   \<and> (\<forall>k<length data. k mod 4 \<noteq> 3 \<longrightarrow> filterData this data ! k = data ! k)
   \<and> filterData this (filterData this data) = filterData this data"
  by (simp add: length_filterData filterData_nth filterData_idem)

theorem filterData_rgb_witness:
  "(2 :: nat) < length [0, 1, 131, 9 :: byte] \<and> (2 :: nat) mod 4 \<noteq> 3
   \<and> filterData example_layer [0, 1, 131, 9] ! 2 = 131
   \<and> length (filterData example_layer [0, 1, 131, 9]) = 4"
proof -
  have "\<forall>k<length [0, 1, 131, 9 :: byte]. k mod 4 \<noteq> 3 \<longrightarrow>
          filterData example_layer [0, 1, 131, 9] ! k = [0, 1, 131, 9] ! k"
    and l: "length (filterData example_layer [0, 1, 131, 9]) = length [0, 1, 131, 9 :: byte]"
    using filterData_rgb [of example_layer "[0, 1, 131, 9]"] by blast+
  then have "(2 :: nat) < length [0, 1, 131, 9 :: byte] \<longrightarrow> (2 :: nat) mod 4 \<noteq> 3 \<longrightarrow>
          filterData example_layer [0, 1, 131, 9] ! 2 = [0, 1, 131, 9] ! 2"
    by blast
  with l show ?thesis by simp
qed

section \<open>Properties of the layer\<close>

lemma hide_keeps_surface: "map_option pixels (element (hide this)) = map_option pixels (element this)"
  by (simp add: hide_def internal_clear_def split: option.splits)

lemma hide_suppresses_update:
  "element this \<noteq> None \<Longrightarrow> internal_update (hide this) = Inr (hide this)"
  by (auto simp: hide_def internal_clear_def internal_update_def)

text \<open>
  Claim C4. \<open>hide\<close> sets \<open>visible\<close> to false before it calls \<open>_clear\<close>, which returns at
  once for a layer that is not visible: the surface of the example layer keeps its
  opaque pixel, where \<open>clearRect\<close> would have left four zero bytes.
\<close>

theorem hide_example_layer:
  "map_option pixels (element (hide example_layer)) = Some [0, 1, 131, 255]
   \<and> visible (hide example_layer) = False
   \<and> map_option (pixels \<circ> clearRect) (element example_layer) = Some [0, 0, 0, 0]"
  by (simp add: hide_def example_layer_def internal_clear_def clearRect_def)

lemma foldl_getTile:
  "foldl (\<lambda>t s. getTile t (stat_z s) (stat_y s) (stat_x s) rmin cmin) this stats
     = this\<lparr>requests := requests this @
         map (\<lambda>s. \<lparr>url = ''//wri-tiles.s3.amazonaws.com/glad_test/test2/'' @ string_of_int (stat_z s)
                         @ ''/'' @ string_of_int (stat_x s) @ ''/'' @ string_of_int (stat_y s) @ ''.png'',
                    request_level = stat_z s, request_row = stat_y s, request_col = stat_x s\<rparr>) stats\<rparr>"
proof (induction stats arbitrary: this)
  case Nil
  show ?case by simp
next
  case (Cons s stats)
  show ?case
    by (simp add: Cons.IH) (simp add: getTile_def)
qed

text \<open>
  Claim C5, as amended. \<open>show\<close> on a layer with its element and its map, where the tile
  bounds of the extent are tile indices: the element is displayed, the layer is
  visible, and one request is sent for every tile of the rectangle; the surface keeps
  its pixels.
\<close>

theorem show_layer_updates:
  assumes "element this = Some el" and "host_map this = Some m"
    and "getTileColumn (map_tileInfo m) (map_level m) (xmin (map_extent m)) (map_resolution m) = Some colMin"
    and "getTileColumn (map_tileInfo m) (map_level m) (xmax (map_extent m)) (map_resolution m) = Some colMax"
    and "getTileRow (map_tileInfo m) (map_level m) (ymax (map_extent m)) (map_resolution m) = Some rowMin"
    and "getTileRow (map_tileInfo m) (map_level m) (ymin (map_extent m)) (map_resolution m) = Some rowMax"
  shows "show_layer this =
     Inr (this\<lparr>element := Some (el\<lparr>display := ''block''\<rparr>), visible := True,
            requests := requests this @
              map (\<lambda>s. \<lparr>url = ''//wri-tiles.s3.amazonaws.com/glad_test/test2/'' @ string_of_int (stat_z s)
                         @ ''/'' @ string_of_int (stat_x s) @ ''/'' @ string_of_int (stat_y s) @ ''.png'',
                    request_level = stat_z s, request_row = stat_y s, request_col = stat_x s\<rparr>)
                (getTileStats colMin colMax rowMin rowMax (map_level m))\<rparr>)"
  using assms by (simp add: show_layer_def internal_update_def foldl_getTile)

theorem show_layer_updates_witness:
  "show_layer hidden_layer =
     Inr (example_layer\<lparr>requests :=
       [\<lparr>url = ''//wri-tiles.s3.amazonaws.com/glad_test/test2/5/0/0.png'',
         request_level = 5, request_row = 0, request_col = 0\<rparr>]\<rparr>)"
proof -
  have e: "element hidden_layer = Some \<lparr>display = ''none'', pixels = [0, 1, 131, 255]\<rparr>"
    and m: "host_map hidden_layer = Some example_map"
    by (simp_all add: hidden_layer_def example_layer_def)
  have c1: "getTileColumn (map_tileInfo example_map) (map_level example_map)
         (xmin (map_extent example_map)) (map_resolution example_map) = Some 0"
    and c2: "getTileColumn (map_tileInfo example_map) (map_level example_map)
         (xmax (map_extent example_map)) (map_resolution example_map) = Some 0"
    by (simp_all add: example_map_def getTileColumn_def)
  have r1: "getTileRow (map_tileInfo example_map) (map_level example_map)
         (ymax (map_extent example_map)) (map_resolution example_map) = Some 0"
    and r2: "getTileRow (map_tileInfo example_map) (map_level example_map)
         (ymin (map_extent example_map)) (map_resolution example_map) = Some 0"
    by (simp_all add: example_map_def getTileRow_def)
  have v: "hidden_layer\<lparr>element := Some (\<lparr>display = ''none'', pixels = [0, 1, 131, 255]\<rparr>
                \<lparr>display := ''block''\<rparr>), visible := True,
            requests := requests hidden_layer @
              map (\<lambda>s. \<lparr>url = ''//wri-tiles.s3.amazonaws.com/glad_test/test2/'' @ string_of_int (stat_z s)
                         @ ''/'' @ string_of_int (stat_x s) @ ''/'' @ string_of_int (stat_y s) @ ''.png'',
                    request_level = stat_z s, request_row = stat_y s, request_col = stat_x s\<rparr>)
                (getTileStats 0 0 0 0 (map_level example_map))\<rparr>
        = example_layer\<lparr>requests :=
           [\<lparr>url = ''//wri-tiles.s3.amazonaws.com/glad_test/test2/5/0/0.png'',
             request_level = 5, request_row = 0, request_col = 0\<rparr>]\<rparr>"
    by code_simp
  show ?thesis
    using show_layer_updates [OF e m c1 c2 r1 r2] by (simp only: v)
qed

text \<open>
  Claim C5 as stated fails: after \<open>show\<close> on the hidden example layer the surface still
  holds its opaque pixel, where a clear would have left four zero bytes.
\<close>

theorem show_layer_keeps_pixels:
  "(case show_layer hidden_layer of Inl e \<Rightarrow> None | Inr this \<Rightarrow> map_option pixels (element this))
     = Some [0, 1, 131, 255]
   \<and> map_option (pixels \<circ> clearRect) (element hidden_layer) = Some [0, 0, 0, 0]"
  by code_simp

text \<open>
  Claim C8. When the request ends with a status other than 200 (a transport error ends
  it with status 0), the callback returns the layer as it was: no image is loaded, so
  nothing is decoded or drawn, the surface is untouched and nothing is reported.
\<close>

theorem onreadystatechange_failed:
  "status \<noteq> 200 \<Longrightarrow> onreadystatechange self req readyState status response = self"
  by (simp add: onreadystatechange_def)

theorem onreadystatechange_failed_witness:
  "(404 :: nat) \<noteq> 200 \<and> (0 :: nat) \<noteq> 200
   \<and> onreadystatechange example_layer
        \<lparr>url = ''//wri-tiles.s3.amazonaws.com/glad_test/test2/5/0/0.png'',
          request_level = 5, request_row = 0, request_col = 0\<rparr> 4 404 [] = example_layer
   \<and> onreadystatechange example_layer
        \<lparr>url = ''//wri-tiles.s3.amazonaws.com/glad_test/test2/5/0/0.png'',
          request_level = 5, request_row = 0, request_col = 0\<rparr> 4 0 [] = example_layer"
proof -
  have h: "(404 :: nat) \<noteq> 200" "(0 :: nat) \<noteq> 200"
    by simp_all
  show ?thesis
    using h onreadystatechange_failed [OF h(1)] onreadystatechange_failed [OF h(2)] by simp
qed

text \<open>
  Claim C9. Every layer that the constructor builds is visible, also when
  \<open>options.visible\<close> is false: \<open>options.visible || true\<close> is true for every value of the
  option. The constructor builds a layer from every options object.
\<close>

theorem constructor_visible:
  "(\<exists>this. constructor (Some os) = Inr this \<and> visible this)
   \<and> (\<forall>this. constructor opts = Inr this \<longrightarrow> visible this)"
  by (auto simp: constructor_def js_or_def split: option.splits bool.splits)

theorem constructor_visible_witness:
  "constructor (Some \<lparr>options_visible = Some False\<rparr>)
     = Inr \<lparr> minDateValue = 15000, maxDateValue = 16365, visible = True, loaded = True,
             host_map = None, element = None, requests = [], loading = [] \<rparr>
   \<and> visible \<lparr> minDateValue = 15000, maxDateValue = 16365, visible = True, loaded = True,
             host_map = None, element = None, requests = [], loading = [] \<rparr>"
proof -
  have c: "constructor (Some \<lparr>options_visible = Some False\<rparr>)
     = Inr \<lparr> minDateValue = 15000, maxDateValue = 16365, visible = True, loaded = True,
             host_map = None, element = None, requests = [], loading = [] \<rparr>"
    by (simp add: constructor_def js_or_def)
  have "\<forall>this. constructor (Some \<lparr>options_visible = Some False\<rparr>) = Inr this \<longrightarrow> visible this"
    using constructor_visible [of "\<lparr>options_visible = Some False\<rparr>"
        "Some \<lparr>options_visible = Some False\<rparr>"] by blast
  with c show ?thesis by blast
qed

end
